theory Spec2Isabelle
  imports Main "HOL-Library.AList" "HOL-Library.List_Lexorder"
begin

section \<open>Python values of the attendance service\<close>

text \<open>
  A Python \<open>str\<close> is a sequence of Unicode code points: \<open>len\<close> and slicing count code
  points, and \<open><\<close> compares two strings lexicographically by code point. The model
  keeps a string as the list of its code points, ordered lexicographically.
  \<open>ascii\<close> embeds the literals of the source that are plain ASCII.
\<close>

type_synonym pystr = "nat list"

definition ascii :: "string \<Rightarrow> pystr" where
  "ascii s = map of_char s"

text \<open>
  Exceptions carry their class and the text that \<open>str(e)\<close> gives. Only subclasses of
  \<open>Exception\<close> are modelled: they are what \<open>except Exception\<close> catches.
\<close>

datatype exn_class =
    ImportError | TypeError | KeyError | AttributeError | ValidationError | OtherException

datatype exn = Exn exn_class pystr

fun str_exn :: "exn \<Rightarrow> pystr" where
  "str_exn (Exn c m) = m"

fun is_import_error :: "exn \<Rightarrow> bool" where
  "is_import_error (Exn c m) = (c = ImportError)"

text \<open>
  The values found in a submitted or stored document. \<open>'t\<close> is the type of
  \<open>datetime\<close> objects: the service never looks inside one, it only reads the clock,
  parses and renders.
\<close>

datatype 't pyval = PNone | PStr pystr | PDatetime 't | PObjectId pystr

text \<open>
  A \<open>dict\<close> is an association list in insertion order. \<open>d[k] = v\<close> is
  \<open>AList.update\<close> (an existing key keeps its place, a new key goes last),
  \<open>d.get(k)\<close> is \<open>map_of\<close>.
\<close>

type_synonym 't doc = "(pystr \<times> 't pyval) list"

definition dict_get :: "'t doc \<Rightarrow> pystr \<Rightarrow> 't pyval \<Rightarrow> 't pyval" where
  "dict_get d k dflt = (case map_of d k of None \<Rightarrow> dflt | Some v \<Rightarrow> v)"

definition dict_pop :: "'t doc \<Rightarrow> pystr \<Rightarrow> 't pyval \<Rightarrow> 't pyval \<times> 't doc" where
  "dict_pop d k dflt = (dict_get d k dflt, AList.delete k d)"

record http_response =
  status_code :: nat

text \<open>The calls the service makes across its boundaries, in the order it makes them.\<close>

datatype 't call =
    CreateDocument pystr "'t doc"
  | RequestsPost pystr "'t doc" nat

text \<open>
  What lies outside \<open>main.py\<close>: the process environment, the clock, the
  \<open>datetime\<close> and \<open>requests\<close> libraries, and the \<open>database\<close> module (the storage
  gateway). Each is a parameter; a call that can raise returns a sum.
  \<open>parse_datetime\<close> is the reading of a text as a \<open>datetime\<close> that validation of an
  \<open>Optional[datetime]\<close> field performs; \<open>fromisoformat\<close> is \<open>datetime.fromisoformat\<close>.
  On every path \<open>create_attendance\<close> reads the clock at most once, so one reading
  \<open>utcnow\<close> stands for \<open>datetime.now(timezone.utc)\<close>. The gateway is taken to leave
  the dictionary it is given as the caller built it.
\<close>

record 't db_handle =
  db_name :: "exn + 't pyval option"
  list_collection_names :: "exn + pystr list"

record 't env =
  getenv :: "pystr \<Rightarrow> pystr option"
  utcnow :: "'t"
  fromisoformat :: "pystr \<Rightarrow> exn + 't"
  parse_datetime :: "pystr \<Rightarrow> exn + 't"
  isoformat :: "'t \<Rightarrow> pystr"
  str_datetime :: "'t \<Rightarrow> pystr"
  dt_lt :: "'t \<Rightarrow> 't \<Rightarrow> bool option"
  create_document :: "pystr \<Rightarrow> 't doc \<Rightarrow> exn + pystr"
  get_documents :: "pystr \<Rightarrow> 't doc \<Rightarrow> int \<Rightarrow> exn + 't doc list"
  requests_post :: "pystr \<Rightarrow> 't doc \<Rightarrow> nat \<Rightarrow> exn + http_response"
  raise_for_status :: "http_response \<Rightarrow> exn + unit"
  import_db :: "exn + 't db_handle option"

text \<open>Python truthiness of what \<open>os.getenv\<close> returns: unset and empty are both false.\<close>

definition getenv_truthy :: "'t env \<Rightarrow> pystr \<Rightarrow> bool" where
  "getenv_truthy e k = (case getenv e k of None \<Rightarrow> False | Some v \<Rightarrow> v \<noteq> [])"

section \<open>The record model\<close>

text \<open>
  \<open>AttendanceIn\<close>: three required strings, \<open>scanned_at\<close> (default \<open>None\<close>) and
  \<open>source\<close> (default \<open>"qr"\<close>). The field \<open>scanned_at\<close> is declared
  \<open>Optional[datetime]\<close>, and a validated payload holds \<open>None\<close> or a \<open>datetime\<close> there.
  \<open>create_attendance\<close> also handles a \<open>str\<close> in that place, which only a payload built
  with validation bypassed can hold, so the payload type admits one.
\<close>

datatype 't scanned = NoStamp | Stamp 't | StampText pystr

record 't attendance_in =
  name :: pystr
  nisn :: pystr
  major :: pystr
  scanned_at :: "'t scanned"
  source :: "pystr option"

text \<open>
  A submission as it arrives: an optional field is either left out (\<open>None\<close>) or
  supplied, and a supplied \<open>source\<close> may be \<open>null\<close>.
\<close>

record 't submission =
  sub_name :: pystr
  sub_nisn :: pystr
  sub_major :: pystr
  sub_scanned_at :: "'t pyval option"
  sub_source :: "pystr option option"

text \<open>
  Validation of the field \<open>scanned_at: Optional[datetime]\<close>: \<open>None\<close> and a \<open>datetime\<close>
  pass, a text is read as a \<open>datetime\<close> or refused, any other value is refused.
\<close>

definition validate_scanned_at :: "'t env \<Rightarrow> 't pyval \<Rightarrow> exn + 't scanned" where
  "validate_scanned_at e v =
     (case v of
        PNone \<Rightarrow> Inr NoStamp
      | PDatetime t \<Rightarrow> Inr (Stamp t)
      | PStr s \<Rightarrow> (case parse_datetime e s of Inl ex \<Rightarrow> Inl ex | Inr t \<Rightarrow> Inr (Stamp t))
      | PObjectId h \<Rightarrow> Inl (Exn ValidationError (ascii ''Input should be a valid datetime'')))"

text \<open>
  Building an \<open>AttendanceIn\<close> from a submission: the declared defaults are filled in and
  \<open>scanned_at\<close> is validated; a refused value raises \<open>ValidationError\<close>.
\<close>

definition AttendanceIn :: "'t env \<Rightarrow> 't submission \<Rightarrow> exn + 't attendance_in" where
  "AttendanceIn e s =
     (case (case sub_scanned_at s of None \<Rightarrow> Inr NoStamp | Some v \<Rightarrow> validate_scanned_at e v) of
        Inl ex \<Rightarrow> Inl ex
      | Inr stamp \<Rightarrow>
          Inr \<lparr> name = sub_name s, nisn = sub_nisn s, major = sub_major s,
                scanned_at = stamp,
                source = (case sub_source s of None \<Rightarrow> Some (ascii ''qr'') | Some v \<Rightarrow> v) \<rparr>)"

fun scanned_val :: "'t scanned \<Rightarrow> 't pyval" where
  "scanned_val NoStamp = PNone"
| "scanned_val (Stamp t) = PDatetime t"
| "scanned_val (StampText s) = PStr s"

fun opt_str_val :: "pystr option \<Rightarrow> 't pyval" where
  "opt_str_val None = PNone"
| "opt_str_val (Some s) = PStr s"

definition model_dump :: "'t attendance_in \<Rightarrow> 't doc" where
  "model_dump p =
     [(ascii ''name'', PStr (name p)), (ascii ''nisn'', PStr (nisn p)),
      (ascii ''major'', PStr (major p)), (ascii ''scanned_at'', scanned_val (scanned_at p)),
      (ascii ''source'', opt_str_val (source p))]"

section \<open>Submitting a record: \<open>create_attendance\<close>\<close>

text \<open>
  Lines 53 to 58: \<open>data.get("scanned_at") or datetime.now(timezone.utc)\<close>, then the
  parse of a string. \<open>None\<close> and the empty string are falsy; a \<open>datetime\<close> is always
  truthy.
\<close>

definition resolve_scanned_at :: "'t env \<Rightarrow> 't pyval \<Rightarrow> 't pyval" where
  "resolve_scanned_at e v =
     (let scanned = (case v of PNone \<Rightarrow> PDatetime (utcnow e)
                             | PStr s \<Rightarrow> (if s = [] then PDatetime (utcnow e) else PStr s)
                             | other \<Rightarrow> other)
      in case scanned of
           PStr s \<Rightarrow> (case fromisoformat e s of
                         Inl ex \<Rightarrow> PDatetime (utcnow e)
                       | Inr t \<Rightarrow> PDatetime t)
         | other \<Rightarrow> other)"

text \<open>The name of a value's type, as an error message shows it.\<close>

fun type_name :: "'t pyval \<Rightarrow> pystr" where
  "type_name PNone = ascii ''NoneType''"
| "type_name (PStr s) = ascii ''str''"
| "type_name (PDatetime t) = ascii ''datetime.datetime''"
| "type_name (PObjectId h) = ascii ''ObjectId''"

text \<open>
  \<open>scanned_at.isoformat()\<close>: a method of \<open>datetime\<close>; on any other value the attribute
  lookup raises \<open>AttributeError\<close>. Code point 39 is the single quote.
\<close>

definition call_isoformat :: "'t env \<Rightarrow> 't pyval \<Rightarrow> exn + pystr" where
  "call_isoformat e v =
     (case v of
        PDatetime t \<Rightarrow> Inr (isoformat e t)
      | other \<Rightarrow> Inl (Exn AttributeError
                   ([39] @ type_name v @ [39] @ ascii '' object has no attribute ''
                    @ [39] @ ascii ''isoformat'' @ [39])))"

text \<open>
  \<open>data[k]\<close> raises \<open>KeyError(k)\<close> on a missing key; its \<open>str\<close> is the key in quotes.
\<close>

definition dict_item :: "'t doc \<Rightarrow> pystr \<Rightarrow> exn + 't pyval" where
  "dict_item d k =
     (case map_of d k of None \<Rightarrow> Inl (Exn KeyError ([39] @ k @ [39])) | Some v \<Rightarrow> Inr v)"

text \<open>Lines 74 to 86, the body of the \<open>try\<close>: build the JSON, post it, check the status.\<close>

definition forward_body :: "'t env \<Rightarrow> pystr \<Rightarrow> 't doc \<Rightarrow> 't pyval \<Rightarrow> (exn + unit) \<times> 't call list" where
  "forward_body e sheets_url data scanned =
     (case dict_item data (ascii ''name'') of Inl ex \<Rightarrow> (Inl ex, []) | Inr n \<Rightarrow>
     (case dict_item data (ascii ''nisn'') of Inl ex \<Rightarrow> (Inl ex, []) | Inr i \<Rightarrow>
     (case dict_item data (ascii ''major'') of Inl ex \<Rightarrow> (Inl ex, []) | Inr m \<Rightarrow>
     (case call_isoformat e scanned of Inl ex \<Rightarrow> (Inl ex, []) | Inr stamp \<Rightarrow>
       (let json = [(ascii ''name'', n), (ascii ''nisn'', i), (ascii ''major'', m),
                    (ascii ''scanned_at'', PStr stamp),
                    (ascii ''source'', dict_get data (ascii ''source'') (PStr (ascii ''qr'')))];
            sent = [RequestsPost sheets_url json 10]
        in (case requests_post e sheets_url json 10 of Inl ex \<Rightarrow> (Inl ex, sent) | Inr r \<Rightarrow>
           (case raise_for_status e r of Inl ex \<Rightarrow> (Inl ex, sent) | Inr u \<Rightarrow> (Inr (), sent))))))))"

record attendance_response =
  ok :: bool
  id' :: "pystr option"
  forward_to_sheets :: pystr

definition create_attendance ::
  "'t env \<Rightarrow> 't attendance_in \<Rightarrow> (exn + attendance_response) \<times> 't call list" where
  "create_attendance e payload =
     (let data0 = model_dump payload;
          scanned = resolve_scanned_at e (dict_get data0 (ascii ''scanned_at'') PNone);
          data = AList.update (ascii ''scanned_at'') scanned data0;
          inserted_id = (case create_document e (ascii ''studentattendance'') data of
                           Inl ex \<Rightarrow> None | Inr i \<Rightarrow> Some i);
          stored = [CreateDocument (ascii ''studentattendance'') data];
          sheets_url = getenv e (ascii ''GOOGLE_SHEETS_WEBAPP_URL'');
          (forward_status, sent) =
            (case sheets_url of
               None \<Rightarrow> (ascii ''skipped'', [])
             | Some url \<Rightarrow>
                 if url = [] then (ascii ''skipped'', [])
                 else (case forward_body e url data scanned of
                         (Inr u, cs) \<Rightarrow> (ascii ''ok'', cs)
                       | (Inl ex, cs) \<Rightarrow> (ascii ''error: '' @ take 120 (str_exn ex), cs)))
      in (Inr \<lparr> ok = True, id' = inserted_id, forward_to_sheets = forward_status \<rparr>,
          stored @ sent))"

text \<open>
  Lines 48 and 49, \<open>@app.post("/attendance")\<close> on a function of \<open>payload: AttendanceIn\<close>:
  a request builds the payload from the submitted body first, and a \<open>ValidationError\<close>
  is answered to the caller (status 422) without \<open>create_attendance\<close> running.
\<close>

definition post_attendance ::
  "'t env \<Rightarrow> 't submission \<Rightarrow> (exn + attendance_response) \<times> 't call list" where
  "post_attendance e s =
     (case AttendanceIn e s of
        Inl ex \<Rightarrow> (Inl ex, [])
      | Inr payload \<Rightarrow> create_attendance e payload)"

text \<open>What a run of \<open>create_attendance\<close> handed to the gateway and to the webhook.\<close>

definition stored_docs :: "'t env \<Rightarrow> 't attendance_in \<Rightarrow> (pystr \<times> 't doc) list" where
  "stored_docs e p = [(c, d). CreateDocument c d \<leftarrow> snd (create_attendance e p)]"

definition posted :: "'t env \<Rightarrow> 't attendance_in \<Rightarrow> (pystr \<times> 't doc \<times> nat) list" where
  "posted e p = [(u, j, t). RequestsPost u j t \<leftarrow> snd (create_attendance e p)]"

section \<open>Listing records: \<open>list_attendance\<close>\<close>

text \<open>\<open>str(v)\<close>. An \<open>ObjectId\<close> is kept as its hexadecimal text, which is what \<open>str\<close> gives.\<close>

definition py_str :: "'t env \<Rightarrow> 't pyval \<Rightarrow> pystr" where
  "py_str e v =
     (case v of PNone \<Rightarrow> ascii ''None'' | PStr s \<Rightarrow> s
              | PDatetime t \<Rightarrow> str_datetime e t | PObjectId h \<Rightarrow> h)"

text \<open>\<open>isinstance(v, datetime)\<close>\<close>

fun is_datetime :: "'t pyval \<Rightarrow> bool" where
  "is_datetime (PDatetime t) = True"
| "is_datetime v = False"

text \<open>\<open>if isinstance(d.get(k), datetime): d[k] = d[k].isoformat()\<close>\<close>

definition iso_field :: "'t env \<Rightarrow> pystr \<Rightarrow> 't doc \<Rightarrow> 't doc" where
  "iso_field e k d =
     (case dict_get d k PNone of
        PDatetime t \<Rightarrow> AList.update k (PStr (isoformat e t)) d
      | other \<Rightarrow> d)"

text \<open>The body of the loop, lines 105 to 111.\<close>

definition convert_doc :: "'t env \<Rightarrow> 't doc \<Rightarrow> 't doc" where
  "convert_doc e d0 =
     (let (v, d1) = dict_pop d0 (ascii ''_id'') (PStr []);
          d2 = AList.update (ascii ''id'') (PStr (py_str e v)) d1;
          d3 = iso_field e (ascii ''scanned_at'') d2;
          d4 = iso_field e (ascii ''created_at'') d3
      in iso_field e (ascii ''updated_at'') d4)"

fun convert_docs :: "'t env \<Rightarrow> 't doc list \<Rightarrow> 't doc list \<Rightarrow> 't doc list" where
  "convert_docs e [] result = result"
| "convert_docs e (d # docs) result = convert_docs e docs (result @ [convert_doc e d])"

text \<open>
  \<open>a < b\<close> on two values: two strings compare by code point, two \<open>ObjectId\<close>s by their
  bytes, two \<open>datetime\<close>s as the library decides (a naive and an aware one do not
  compare); every other pair raises \<open>TypeError\<close>, here \<open>None\<close>.
\<close>

fun py_lt :: "'t env \<Rightarrow> 't pyval \<Rightarrow> 't pyval \<Rightarrow> bool option" where
  "py_lt e (PStr a) (PStr b) = Some (a < b)"
| "py_lt e (PObjectId a) (PObjectId b) = Some (a < b)"
| "py_lt e (PDatetime a) (PDatetime b) = dt_lt e a b"
| "py_lt e a b = None"

text \<open>
  \<open>list.sort(key=..., reverse=True)\<close>. The sort is stable and compares keys with \<open><\<close>
  only; with \<open>reverse=True\<close> it reverses the list, sorts it ascending and reverses it
  again, so that equal keys keep their order. It raises what a comparison raises.
  The model sorts by insertion: an element goes before the first one its key is less
  than. A list of one element is compared with nothing.
\<close>

fun insort_lt :: "('k \<Rightarrow> 'k \<Rightarrow> bool option) \<Rightarrow> ('a \<Rightarrow> 'k) \<Rightarrow> 'a \<Rightarrow> 'a list \<Rightarrow> 'a list option" where
  "insort_lt lt key x [] = Some [x]"
| "insort_lt lt key x (y # ys) =
     (case lt (key x) (key y) of
        None \<Rightarrow> None
      | Some True \<Rightarrow> Some (x # y # ys)
      | Some False \<Rightarrow> map_option (Cons y) (insort_lt lt key x ys))"

fun sort_asc :: "('k \<Rightarrow> 'k \<Rightarrow> bool option) \<Rightarrow> ('a \<Rightarrow> 'k) \<Rightarrow> 'a list \<Rightarrow> 'a list \<Rightarrow> 'a list option" where
  "sort_asc lt key [] acc = Some acc"
| "sort_asc lt key (x # xs) acc =
     (case insort_lt lt key x acc of None \<Rightarrow> None | Some acc' \<Rightarrow> sort_asc lt key xs acc')"

definition sort_reverse :: "('k \<Rightarrow> 'k \<Rightarrow> bool option) \<Rightarrow> ('a \<Rightarrow> 'k) \<Rightarrow> 'a list \<Rightarrow> exn + 'a list" where
  "sort_reverse lt key xs =
     (case sort_asc lt key (rev xs) [] of
        None \<Rightarrow> Inl (Exn TypeError (ascii ''< not supported''))
      | Some ys \<Rightarrow> Inr (rev ys))"

text \<open>The sort key, \<open>lambda x: x.get("created_at", "")\<close>.\<close>

definition created_at_key :: "'t doc \<Rightarrow> 't pyval" where
  "created_at_key x = dict_get x (ascii ''created_at'') (PStr [])"

text \<open>The body of the \<open>try\<close>, lines 101 to 115.\<close>

definition list_attendance_body :: "'t env \<Rightarrow> int \<Rightarrow> exn + 't doc list" where
  "list_attendance_body e limit =
     (case get_documents e (ascii ''studentattendance'') [] limit of
        Inl ex \<Rightarrow> Inl ex
      | Inr docs \<Rightarrow> sort_reverse (py_lt e) created_at_key (convert_docs e docs []))"

definition list_attendance :: "'t env \<Rightarrow> int \<Rightarrow> exn + 't doc list" where
  "list_attendance e limit =
     (case list_attendance_body e limit of Inl ex \<Rightarrow> Inr [] | Inr result \<Rightarrow> Inr result)"

section \<open>The diagnostic endpoint: \<open>test_database\<close>\<close>

definition check_mark :: pystr where
  "check_mark = [9989]"

definition cross_mark :: pystr where
  "cross_mark = [10060]"

definition warning_sign :: pystr where
  "warning_sign = [9888, 65039]"

record 't health =
  backend :: pystr
  database :: pystr
  database_url :: "'t pyval"
  database_name :: "'t pyval"
  connection_status :: pystr
  collections :: "pystr list"

definition initial_health :: "'t health" where
  "initial_health =
     \<lparr> backend = check_mark @ ascii '' Running'',
       database = cross_mark @ ascii '' Not Available'',
       database_url = PNone, database_name = PNone,
       connection_status = ascii ''Not Connected'', collections = [] \<rparr>"

text \<open>
  The body of the outer \<open>try\<close>, lines 135 to 151. The response is updated in place, so
  an exception leaves the assignments made before it: the result is the exception, if
  any, with the response as it stands. \<open>hasattr\<close> answers \<open>False\<close> on
  \<open>AttributeError\<close> only (\<open>db_name = Inr None\<close>) and lets any other exception through.
\<close>

definition probe_database :: "'t env \<Rightarrow> 't health \<Rightarrow> exn option \<times> 't health" where
  "probe_database e response =
     (case import_db e of
        Inl ex \<Rightarrow> (Some ex, response)
      | Inr None \<Rightarrow>
          (None, response\<lparr>database := warning_sign @ ascii ''  Available but not initialized''\<rparr>)
      | Inr (Some db) \<Rightarrow>
          (let r1 = response\<lparr>database := check_mark @ ascii '' Available'',
                             database_url := PStr (check_mark @ ascii '' Configured'')\<rparr>
           in (case db_name db of
                 Inl ex \<Rightarrow> (Some ex, r1)
               | Inr attr \<Rightarrow>
                   (let r2 = r1\<lparr>database_name :=
                                    (case attr of Some v \<Rightarrow> v
                                                | None \<Rightarrow> PStr (check_mark @ ascii '' Connected'')),
                                  connection_status := ascii ''Connected''\<rparr>
                    in (case list_collection_names db of
                          Inr cs \<Rightarrow>
                            (None, r2\<lparr>collections := take 10 cs,
                                      database := check_mark @ ascii '' Connected & Working''\<rparr>)
                        | Inl ex \<Rightarrow>
                            (None, r2\<lparr>database := warning_sign @ ascii ''  Connected but Error: ''
                                                     @ take 50 (str_exn ex)\<rparr>))))))"

definition test_database :: "'t env \<Rightarrow> exn + 't health" where
  "test_database e =
     (let (raised, r) = probe_database e initial_health;
          r' = (case raised of
                  None \<Rightarrow> r
                | Some ex \<Rightarrow>
                    if is_import_error ex
                    then r\<lparr>database := cross_mark
                           @ ascii '' Database module not found (run enable-database first)''\<rparr>
                    else r\<lparr>database := cross_mark @ ascii '' Error: '' @ take 50 (str_exn ex)\<rparr>)
      in Inr (r'\<lparr>database_url :=
                    PStr (if getenv_truthy e (ascii ''DATABASE_URL'')
                          then check_mark @ ascii '' Set'' else cross_mark @ ascii '' Not Set''),
                  database_name :=
                    PStr (if getenv_truthy e (ascii ''DATABASE_NAME'')
                          then check_mark @ ascii '' Set'' else cross_mark @ ascii '' Not Set'')\<rparr>))"

text \<open>
  The dictionary \<open>create_attendance\<close> builds from a payload, with \<open>v\<close> in the place of
  \<open>scanned_at\<close>: the keys of \<open>model_dump\<close>, in its order.
\<close>

definition record_of :: "'t attendance_in \<Rightarrow> 't pyval \<Rightarrow> 't doc" where
  "record_of p v =
     [(ascii ''name'', PStr (name p)), (ascii ''nisn'', PStr (nisn p)),
      (ascii ''major'', PStr (major p)), (ascii ''scanned_at'', v),
      (ascii ''source'', opt_str_val (source p))]"

section \<open>Sample runs\<close>

text \<open>
  Two environments over \<open>nat\<close> timestamps, to run the model on: in \<open>env_up\<close> storage
  and webhook answer; in \<open>env_down\<close> every storage operation raises, the webhook raises
  with a message of 130 characters, and the \<open>database\<close> module is missing.
  Validation reads the text \<open>"1700000000"\<close> as the time 1699 and refuses every other
  text; \<open>datetime.fromisoformat\<close> refuses every text.
  \<open>ana\<close> is the submission \<open>{name: "Ana", nisn: "123", major: "CS"}\<close>, \<open>ana_in\<close> the
  payload built from it, and \<open>soon_in\<close> a payload built without validation whose
  \<open>scanned_at\<close> is the text \<open>"soon"\<close>.
\<close>

definition env_up :: "nat env" where
  "env_up =
     \<lparr> getenv = (\<lambda>k. if k = ascii ''GOOGLE_SHEETS_WEBAPP_URL'' then Some (ascii ''https://hook'')
                      else None),
       utcnow = 1700,
       fromisoformat = (\<lambda>s. Inl (Exn OtherException (ascii ''Invalid isoformat string''))),
       parse_datetime = (\<lambda>s. if s = ascii ''1700000000'' then Inr 1699
                              else Inl (Exn ValidationError (ascii ''Input should be a valid datetime''))),
       isoformat = (\<lambda>t. [84, t]),
       str_datetime = (\<lambda>t. [32, t]),
       dt_lt = (\<lambda>a b. Some (a < b)),
       create_document = (\<lambda>c d. Inr (ascii ''65f0c0ffee'')),
       get_documents = (\<lambda>c f l. Inr []),
       requests_post = (\<lambda>u j t. Inr \<lparr>status_code = 200\<rparr>),
       raise_for_status = (\<lambda>r. if 400 \<le> status_code r
                                 then Inl (Exn OtherException (ascii ''HTTP error'')) else Inr ()),
       import_db = Inr None \<rparr>"

definition env_down :: "nat env" where
  "env_down =
     env_up \<lparr> create_document := (\<lambda>c d. Inl (Exn OtherException (ascii ''Database not available''))),
              get_documents := (\<lambda>c f l. Inl (Exn OtherException (ascii ''Database not available''))),
              requests_post := (\<lambda>u j t. Inl (Exn OtherException (replicate 130 120))),
              import_db := Inl (Exn ImportError (ascii ''No module named database'')) \<rparr>"

definition ana :: "nat submission" where
  "ana = \<lparr> sub_name = ascii ''Ana'', sub_nisn = ascii ''123'', sub_major = ascii ''CS'',
           sub_scanned_at = None, sub_source = None \<rparr>"

definition ana_in :: "nat attendance_in" where
  "ana_in = \<lparr> name = ascii ''Ana'', nisn = ascii ''123'', major = ascii ''CS'',
              scanned_at = NoStamp, source = Some (ascii ''qr'') \<rparr>"


text \<open>
  Two stores. \<open>env_three\<close> holds a record created at 1, a record with no \<open>created_at\<close>
  and a record created at 3; \<open>env_tie\<close> holds a record with no \<open>created_at\<close> and a
  record whose \<open>created_at\<close> is the empty string. Both hand out the first \<open>limit\<close>
  documents.
\<close>

definition env_three :: "nat env" where
  "env_three =
     env_up \<lparr> get_documents := (\<lambda>c f l. Inr (take (nat l)
       [[(ascii ''_id'', PObjectId (ascii ''a1'')), (ascii ''created_at'', PDatetime 1)],
        [(ascii ''_id'', PObjectId (ascii ''b2''))],
        [(ascii ''_id'', PObjectId (ascii ''c3'')), (ascii ''created_at'', PDatetime 3)]])) \<rparr>"

definition env_tie :: "nat env" where
  "env_tie =
     env_up \<lparr> get_documents := (\<lambda>c f l. Inr (take (nat l)
       [[(ascii ''_id'', PObjectId (ascii ''a1''))],
        [(ascii ''_id'', PObjectId (ascii ''b2'')), (ascii ''created_at'', PStr [])]])) \<rparr>"

text \<open>
  \<open>env_db\<close>: \<open>DATABASE_URL\<close> is set, \<open>DATABASE_NAME\<close> is not, and the database has
  twelve collections.
\<close>

definition env_db :: "nat env" where
  "env_db =
     env_up \<lparr> getenv := (\<lambda>k. if k = ascii ''DATABASE_URL'' then Some (ascii ''mongodb://db'') else None),
              import_db := Inr (Some \<lparr> db_name = Inr (Some (PStr (ascii ''attendance''))),
                                      list_collection_names = Inr (replicate 12 (ascii ''c'')) \<rparr>) \<rparr>"

section \<open>Properties of the submission path\<close>

lemma ascii_inj [simp]: "ascii a = ascii b \<longleftrightarrow> a = b"
  by (simp add: ascii_def inj_map_eq_map [OF inj_of_char [where ?'a = nat]])

lemma resolve_scanned_val:
  "\<exists>t. resolve_scanned_at e (scanned_val v) = PDatetime t"
  by (cases v) (auto simp: resolve_scanned_at_def Let_def split: sum.splits)

lemma resolve_absent: "resolve_scanned_at e PNone = PDatetime (utcnow e)"
  by (simp add: resolve_scanned_at_def)


lemma model_dump_scanned:
  "dict_get (model_dump p) (ascii ''scanned_at'') PNone = scanned_val (scanned_at p)"
  by (simp add: model_dump_def dict_get_def)

lemma update_model_dump:
  "AList.update (ascii ''scanned_at'') v (model_dump p) = record_of p v"
  by (simp add: model_dump_def record_of_def)

lemma forward_body_data:
  "forward_body e url (record_of p (PDatetime t)) (PDatetime t) =
   ((case requests_post e url (record_of p (PStr (isoformat e t))) 10 of
      Inl ex \<Rightarrow> Inl ex
    | Inr r \<Rightarrow> raise_for_status e r),
    [RequestsPost url (record_of p (PStr (isoformat e t))) 10])"
  by (simp add: forward_body_def record_of_def dict_item_def call_isoformat_def dict_get_def
      Let_def split: sum.splits)

lemma create_attendance_skipped:
  assumes t: "resolve_scanned_at e (scanned_val (scanned_at p)) = PDatetime t"
    and u: "\<not> getenv_truthy e (ascii ''GOOGLE_SHEETS_WEBAPP_URL'')"
  shows "create_attendance e p =
     (Inr \<lparr> ok = True,
            id' = (case create_document e (ascii ''studentattendance'') (record_of p (PDatetime t)) of
                     Inl ex \<Rightarrow> None | Inr i \<Rightarrow> Some i),
            forward_to_sheets = ascii ''skipped'' \<rparr>,
      [CreateDocument (ascii ''studentattendance'') (record_of p (PDatetime t))])"
  using u unfolding create_attendance_def model_dump_scanned update_model_dump t Let_def
    getenv_truthy_def
  by (simp split: option.splits)

lemma create_attendance_forwarded:
  assumes t: "resolve_scanned_at e (scanned_val (scanned_at p)) = PDatetime t"
    and u: "getenv e (ascii ''GOOGLE_SHEETS_WEBAPP_URL'') = Some url" "url \<noteq> []"
  shows "create_attendance e p =
     (Inr \<lparr> ok = True,
            id' = (case create_document e (ascii ''studentattendance'') (record_of p (PDatetime t)) of
                     Inl ex \<Rightarrow> None | Inr i \<Rightarrow> Some i),
            forward_to_sheets =
              (case requests_post e url (record_of p (PStr (isoformat e t))) 10 of
                 Inl ex \<Rightarrow> ascii ''error: '' @ take 120 (str_exn ex)
               | Inr r \<Rightarrow> (case raise_for_status e r of
                             Inl ex \<Rightarrow> ascii ''error: '' @ take 120 (str_exn ex)
                           | Inr u \<Rightarrow> ascii ''ok'')) \<rparr>,
      [CreateDocument (ascii ''studentattendance'') (record_of p (PDatetime t)),
       RequestsPost url (record_of p (PStr (isoformat e t))) 10])"
  using u unfolding create_attendance_def model_dump_scanned update_model_dump t Let_def
    forward_body_data
  by (simp split: sum.splits)

lemma configured_cases:
  "\<not> getenv_truthy e k \<or> (\<exists>url. getenv e k = Some url \<and> url \<noteq> [])"
  by (simp add: getenv_truthy_def split: option.splits)

text \<open>
  C1. For every environment and every payload, \<open>create_attendance\<close> returns a response,
  and its \<open>ok\<close> is true: whatever the storage insert and the forwarding call do, no
  exception leaves the function.
\<close>

theorem create_attendance_always_ok:
  "\<exists>r. fst (create_attendance e p) = Inr r \<and> ok r"
proof -
  obtain t where t: "resolve_scanned_at e (scanned_val (scanned_at p)) = PDatetime t"
    using resolve_scanned_val [of e "scanned_at p"] by auto
  show ?thesis
    using configured_cases [of e "ascii ''GOOGLE_SHEETS_WEBAPP_URL''"]
    by (auto simp: create_attendance_skipped [OF t] create_attendance_forwarded [OF t])
qed

theorem create_attendance_always_ok_witness:
  "\<exists>r. fst (create_attendance env_down ana_in) = Inr r \<and> ok r"
  using create_attendance_always_ok [of env_down ana_in] by simp

lemma stored_docs_eq:
  "\<exists>t. resolve_scanned_at e (scanned_val (scanned_at p)) = PDatetime t \<and>
       stored_docs e p = [(ascii ''studentattendance'', record_of p (PDatetime t))]"
proof -
  obtain t where t: "resolve_scanned_at e (scanned_val (scanned_at p)) = PDatetime t"
    using resolve_scanned_val [of e "scanned_at p"] by auto
  have "stored_docs e p = [(ascii ''studentattendance'', record_of p (PDatetime t))]"
    using configured_cases [of e "ascii ''GOOGLE_SHEETS_WEBAPP_URL''"]
    by (auto simp: stored_docs_def create_attendance_skipped [OF t]
        create_attendance_forwarded [OF t])
  with t show ?thesis by blast
qed

lemma posted_skipped:
  "\<not> getenv_truthy e (ascii ''GOOGLE_SHEETS_WEBAPP_URL'') \<Longrightarrow> posted e p = []"
  using resolve_scanned_val [of e "scanned_at p"]
  by (auto simp: posted_def create_attendance_skipped)

lemma posted_forwarded:
  assumes "resolve_scanned_at e (scanned_val (scanned_at p)) = PDatetime t"
    and "getenv e (ascii ''GOOGLE_SHEETS_WEBAPP_URL'') = Some url" and "url \<noteq> []"
  shows "posted e p = [(url, record_of p (PStr (isoformat e t)), 10)]"
  by (simp add: posted_def create_attendance_forwarded [OF assms])

lemma env_up_url: "getenv env_up (ascii ''GOOGLE_SHEETS_WEBAPP_URL'') = Some (ascii ''https://hook'')"
  by (simp add: env_up_def)

lemma env_down_url: "getenv env_down (ascii ''GOOGLE_SHEETS_WEBAPP_URL'') = Some (ascii ''https://hook'')"
  by (simp add: env_down_def env_up_def)

lemma hook_nonempty: "ascii ''https://hook'' \<noteq> []"
  by (simp add: ascii_def)

text \<open>
  C2. The \<open>forward_to_sheets\<close> field of the response is \<open>"skipped"\<close> when no forwarding
  endpoint is configured; when one is, the service posts once, and the field is \<open>"ok"\<close>
  when the post and its status check succeed, and \<open>"error: "\<close> followed by the first 120
  characters of the exception's message when either raises. In every case it is one of
  \<open>"skipped"\<close>, \<open>"ok"\<close>, or \<open>"error: "\<close> and at most 120 characters, 127 in all.
\<close>

theorem forward_status_classified:
  "\<exists>r. fst (create_attendance e p) = Inr r \<and>
     (\<not> getenv_truthy e (ascii ''GOOGLE_SHEETS_WEBAPP_URL'') \<longrightarrow>
        forward_to_sheets r = ascii ''skipped'') \<and>
     (\<forall>url. getenv e (ascii ''GOOGLE_SHEETS_WEBAPP_URL'') = Some url \<and> url \<noteq> [] \<longrightarrow>
        (\<exists>json. posted e p = [(url, json, 10)] \<and>
           (case requests_post e url json 10 of
              Inl ex \<Rightarrow> forward_to_sheets r = ascii ''error: '' @ take 120 (str_exn ex)
            | Inr resp \<Rightarrow>
                (case raise_for_status e resp of
                   Inl ex \<Rightarrow> forward_to_sheets r = ascii ''error: '' @ take 120 (str_exn ex)
                 | Inr u \<Rightarrow> forward_to_sheets r = ascii ''ok'')))) \<and>
     (forward_to_sheets r = ascii ''skipped'' \<or> forward_to_sheets r = ascii ''ok'' \<or>
      (\<exists>m. forward_to_sheets r = ascii ''error: '' @ m \<and> length m \<le> 120 \<and>
           length (forward_to_sheets r) \<le> 127))"
proof -
  obtain t where t: "resolve_scanned_at e (scanned_val (scanned_at p)) = PDatetime t"
    using resolve_scanned_val [of e "scanned_at p"] by auto
  have len: "length (ascii ''error: '') = 7"
    by (simp add: ascii_def)
  show ?thesis
  proof (cases "getenv_truthy e (ascii ''GOOGLE_SHEETS_WEBAPP_URL'')")
    case False
    then have no: "\<And>url. getenv e (ascii ''GOOGLE_SHEETS_WEBAPP_URL'') = Some url \<Longrightarrow> url = []"
      by (auto simp: getenv_truthy_def)
    from False show ?thesis
      by (auto simp: create_attendance_skipped [OF t False] dest: no)
  next
    case True
    then obtain url where u: "getenv e (ascii ''GOOGLE_SHEETS_WEBAPP_URL'') = Some url" "url \<noteq> []"
      using configured_cases [of e "ascii ''GOOGLE_SHEETS_WEBAPP_URL''"] by auto
    show ?thesis
      using True u
      by (simp add: create_attendance_forwarded [OF t u] posted_forwarded [OF t u] len
          split: sum.splits)
  qed
qed

theorem forward_status_classified_witness:
  "\<exists>r. fst (create_attendance env_down ana_in) = Inr r \<and>
       forward_to_sheets r = ascii ''error: '' @ replicate 120 120 \<and>
       length (forward_to_sheets r) = 127"
proof -
  obtain r json where r: "fst (create_attendance env_down ana_in) = Inr r"
    and j: "posted env_down ana_in = [(ascii ''https://hook'', json, 10)]"
    and c: "(case requests_post env_down (ascii ''https://hook'') json 10 of
              Inl ex \<Rightarrow> forward_to_sheets r = ascii ''error: '' @ take 120 (str_exn ex)
            | Inr resp \<Rightarrow>
                (case raise_for_status env_down resp of
                   Inl ex \<Rightarrow> forward_to_sheets r = ascii ''error: '' @ take 120 (str_exn ex)
                 | Inr u \<Rightarrow> forward_to_sheets r = ascii ''ok''))"
    using forward_status_classified [of env_down ana_in] env_down_url hook_nonempty
    by blast
  have "requests_post env_down (ascii ''https://hook'') json 10
          = Inl (Exn OtherException (replicate 130 120))"
    by (simp add: env_down_def env_up_def)
  with c have "forward_to_sheets r = ascii ''error: '' @ replicate 120 120"
    by simp
  with r show ?thesis
    by (simp add: ascii_def)
qed








text \<open>
  C6. When a forwarding endpoint is configured, \<open>create_attendance\<close> posts to it exactly
  once, with a timeout of 10 seconds and a JSON object of exactly five fields: \<open>name\<close>,
  \<open>nisn\<close> (the identifier the specification calls \<open>id_number\<close>), \<open>major\<close>, \<open>scanned_at\<close>
  as the ISO text of the resolved timestamp, and \<open>source\<close>.
\<close>

theorem forwarded_payload:
  assumes "getenv e (ascii ''GOOGLE_SHEETS_WEBAPP_URL'') = Some url" and "url \<noteq> []"
  shows "\<exists>t. resolve_scanned_at e (scanned_val (scanned_at p)) = PDatetime t \<and>
           posted e p =
             [(url,
               [(ascii ''name'', PStr (name p)), (ascii ''nisn'', PStr (nisn p)),
                (ascii ''major'', PStr (major p)),
                (ascii ''scanned_at'', PStr (isoformat e t)),
                (ascii ''source'', opt_str_val (source p))],
               10)]"
proof -
  obtain t where t: "resolve_scanned_at e (scanned_val (scanned_at p)) = PDatetime t"
    using resolve_scanned_val [of e "scanned_at p"] by auto
  show ?thesis
    using t posted_forwarded [OF t assms] by (simp add: record_of_def)
qed

theorem forwarded_payload_witness:
  "posted env_up ana_in =
     [(ascii ''https://hook'',
       [(ascii ''name'', PStr (ascii ''Ana'')), (ascii ''nisn'', PStr (ascii ''123'')),
        (ascii ''major'', PStr (ascii ''CS'')), (ascii ''scanned_at'', PStr [84, 1700]),
        (ascii ''source'', PStr (ascii ''qr''))],
       10)]"
proof -
  have "resolve_scanned_at env_up (scanned_val (scanned_at ana_in)) = PDatetime 1700"
    by (simp add: ana_in_def resolve_scanned_at_def env_up_def)
  then show ?thesis
    using forwarded_payload [OF env_up_url hook_nonempty, of ana_in]
    by (auto simp: ana_in_def env_up_def)
qed

text \<open>
  C7. The \<open>scanned_at\<close> that \<open>create_attendance\<close> hands to the storage insert is a
  \<open>datetime\<close>, never \<open>None\<close>; it is the current UTC time when the payload has none;
  and every post to the webhook carries the ISO text of that same \<open>datetime\<close>.
\<close>

theorem scanned_at_resolved_at_both_boundaries:
  "\<exists>t d. stored_docs e p = [(ascii ''studentattendance'', d)] \<and>
     map_of d (ascii ''scanned_at'') = Some (PDatetime t) \<and>
     (scanned_at p = NoStamp \<longrightarrow> t = utcnow e) \<and>
     (\<forall>(url, json, timeout) \<in> set (posted e p).
        map_of json (ascii ''scanned_at'') = Some (PStr (isoformat e t))) \<and>
     (getenv_truthy e (ascii ''GOOGLE_SHEETS_WEBAPP_URL'') \<longrightarrow> posted e p \<noteq> [])"
proof -
  obtain t where t: "resolve_scanned_at e (scanned_val (scanned_at p)) = PDatetime t"
    and s: "stored_docs e p = [(ascii ''studentattendance'', record_of p (PDatetime t))]"
    using stored_docs_eq [of e p] by auto
  have a: "scanned_at p = NoStamp \<longrightarrow> t = utcnow e"
    using t by (auto simp: resolve_absent)
  have b: "map_of (record_of p v) (ascii ''scanned_at'') = Some v" for v :: "'a pyval"
    by (simp add: record_of_def)
  have c: "(\<forall>(url, json, timeout) \<in> set (posted e p).
        map_of json (ascii ''scanned_at'') = Some (PStr (isoformat e t))) \<and>
     (getenv_truthy e (ascii ''GOOGLE_SHEETS_WEBAPP_URL'') \<longrightarrow> posted e p \<noteq> [])"
  proof (cases "getenv_truthy e (ascii ''GOOGLE_SHEETS_WEBAPP_URL'')")
    case False
    then show ?thesis by (simp add: posted_skipped)
  next
    case True
    then obtain url where u: "getenv e (ascii ''GOOGLE_SHEETS_WEBAPP_URL'') = Some url" "url \<noteq> []"
      using configured_cases [of e "ascii ''GOOGLE_SHEETS_WEBAPP_URL''"] by auto
    show ?thesis
      by (simp add: posted_forwarded [OF t u] b)
  qed
  from s a b c show ?thesis by blast
qed

theorem scanned_at_resolved_at_both_boundaries_witness:
  "\<exists>d json. stored_docs env_up ana_in = [(ascii ''studentattendance'', d)] \<and>
     map_of d (ascii ''scanned_at'') = Some (PDatetime 1700) \<and>
     posted env_up ana_in = [(ascii ''https://hook'', json, 10)] \<and>
     map_of json (ascii ''scanned_at'') = Some (PStr [84, 1700])"
proof -
  have n: "scanned_at ana_in = NoStamp"
    by (simp add: ana_in_def)
  have r: "resolve_scanned_at env_up (scanned_val (scanned_at ana_in))
             = PDatetime (utcnow env_up)"
    by (simp add: n resolve_absent)
  have p: "posted env_up ana_in =
             [(ascii ''https://hook'', record_of ana_in (PStr (isoformat env_up (utcnow env_up))), 10)]"
    by (rule posted_forwarded [OF r env_up_url hook_nonempty])
  have v: "utcnow env_up = 1700" "isoformat env_up 1700 = [84, 1700]"
    by (simp_all add: env_up_def)
  show ?thesis
    using scanned_at_resolved_at_both_boundaries [of env_up ana_in] n
    by (auto simp: p v)
qed

lemma AttendanceIn_ana: "AttendanceIn env_up ana = Inr ana_in"
  by (simp add: AttendanceIn_def ana_def ana_in_def)

text \<open>
  C8. \<open>AttendanceIn\<close> gives \<open>source\<close> the value \<open>"qr"\<close> when the submission leaves it
  out; the document stored and every JSON object forwarded for the payload built from
  such a submission then carry \<open>source = "qr"\<close>.
\<close>

theorem source_defaults_to_qr:
  assumes "sub_source s = None" and "AttendanceIn e s = Inr p"
  shows "source p = Some (ascii ''qr'') \<and>
     post_attendance e s = create_attendance e p \<and>
     (\<exists>d. stored_docs e p = [(ascii ''studentattendance'', d)] \<and>
          map_of d (ascii ''source'') = Some (PStr (ascii ''qr''))) \<and>
     (\<forall>(url, json, timeout) \<in> set (posted e p).
        map_of json (ascii ''source'') = Some (PStr (ascii ''qr''))) \<and>
     (getenv_truthy e (ascii ''GOOGLE_SHEETS_WEBAPP_URL'') \<longrightarrow> posted e p \<noteq> [])"
proof -
  have q: "source p = Some (ascii ''qr'')"
    using assms by (auto simp: AttendanceIn_def split: sum.splits)
  have pa: "post_attendance e s = create_attendance e p"
    using assms(2) by (simp add: post_attendance_def)
  obtain t where t: "resolve_scanned_at e (scanned_val (scanned_at p)) = PDatetime t"
    and st: "stored_docs e p = [(ascii ''studentattendance'', record_of p (PDatetime t))]"
    using stored_docs_eq [of e p] by auto
  have b: "map_of (record_of p v) (ascii ''source'') = Some (PStr (ascii ''qr''))" for v :: "'a pyval"
    by (simp add: record_of_def q)
  have c: "(\<forall>(url, json, timeout) \<in> set (posted e p).
        map_of json (ascii ''source'') = Some (PStr (ascii ''qr''))) \<and>
     (getenv_truthy e (ascii ''GOOGLE_SHEETS_WEBAPP_URL'') \<longrightarrow> posted e p \<noteq> [])"
  proof (cases "getenv_truthy e (ascii ''GOOGLE_SHEETS_WEBAPP_URL'')")
    case False
    then show ?thesis by (simp add: posted_skipped)
  next
    case True
    then obtain url where u: "getenv e (ascii ''GOOGLE_SHEETS_WEBAPP_URL'') = Some url" "url \<noteq> []"
      using configured_cases [of e "ascii ''GOOGLE_SHEETS_WEBAPP_URL''"] by auto
    show ?thesis
      by (simp add: posted_forwarded [OF t u] b)
  qed
  from q pa st b c show ?thesis by blast
qed

theorem source_defaults_to_qr_witness:
  "AttendanceIn env_up ana = Inr ana_in \<and>
   (\<exists>d json. stored_docs env_up ana_in = [(ascii ''studentattendance'', d)] \<and>
     map_of d (ascii ''source'') = Some (PStr (ascii ''qr'')) \<and>
     posted env_up ana_in = [(ascii ''https://hook'', json, 10)] \<and>
     map_of json (ascii ''source'') = Some (PStr (ascii ''qr'')))"
proof -
  have n: "sub_source ana = None"
    by (simp add: ana_def)
  have r: "resolve_scanned_at env_up (scanned_val (scanned_at ana_in))
             = PDatetime (utcnow env_up)"
    by (simp add: ana_in_def resolve_absent)
  have p: "posted env_up ana_in =
             [(ascii ''https://hook'', record_of ana_in (PStr (isoformat env_up (utcnow env_up))), 10)]"
    by (rule posted_forwarded [OF r env_up_url hook_nonempty])
  show ?thesis
    using source_defaults_to_qr [OF n AttendanceIn_ana] AttendanceIn_ana
    by (auto simp: p)
qed

section \<open>Properties of the listing path\<close>

lemma convert_docs_map: "convert_docs e docs result = result @ map (convert_doc e) docs"
  by (induction docs arbitrary: result) simp_all

lemma dict_get_update_same: "dict_get (AList.update k v d) k dflt = v"
  by (simp add: dict_get_def update_conv')

lemma dict_get_update_other: "k' \<noteq> k \<Longrightarrow> dict_get (AList.update k' v d) k dflt = dict_get d k dflt"
  by (simp add: dict_get_def update_conv')

lemma iso_field_same: "\<not> is_datetime (dict_get (iso_field e k d) k PNone)"
  by (cases "dict_get d k PNone") (simp_all add: iso_field_def dict_get_update_same)

lemma iso_field_other: "k' \<noteq> k \<Longrightarrow> dict_get (iso_field e k' d) k dflt = dict_get d k dflt"
  by (cases "dict_get d k' PNone") (simp_all add: iso_field_def dict_get_update_other)

lemma dict_get_default: "dict_get d k dflt = (if map_of d k = None then dflt else dict_get d k PNone)"
  by (simp add: dict_get_def split: option.splits)

lemma iso_field_dom: "map_of (iso_field e k d) k' = None \<longleftrightarrow> map_of d k' = None"
  by (cases "dict_get d k PNone")
     (auto simp: iso_field_def dict_get_def update_conv' split: option.splits if_splits)

lemma created_at_key_convert: "\<not> is_datetime (created_at_key (convert_doc e d))"
proof -
  obtain v d1 where p: "dict_pop d (ascii ''_id'') (PStr []) = (v, d1)"
    by (cases "dict_pop d (ascii ''_id'') (PStr [])")
  let ?d3 = "iso_field e (ascii ''scanned_at'') (AList.update (ascii ''id'') (PStr (py_str e v)) d1)"
  let ?d4 = "iso_field e (ascii ''created_at'') ?d3"
  have c: "convert_doc e d = iso_field e (ascii ''updated_at'') ?d4"
    by (simp add: convert_doc_def p)
  have k: "created_at_key (convert_doc e d) =
             (if map_of ?d4 (ascii ''created_at'') = None then PStr []
              else dict_get ?d4 (ascii ''created_at'') PNone)"
    unfolding c created_at_key_def
    by (subst dict_get_default) (simp add: iso_field_other iso_field_dom)
  show ?thesis
    unfolding k using iso_field_same [of e "ascii ''created_at''" ?d3] by simp
qed

lemma py_lt_asym:
  "\<not> is_datetime a \<Longrightarrow> \<not> is_datetime b \<Longrightarrow> py_lt e a b = Some True \<Longrightarrow> py_lt e b a = Some False"
  by (cases a; cases b) auto

lemma py_lt_trans:
  "\<not> is_datetime a \<Longrightarrow> \<not> is_datetime b \<Longrightarrow> \<not> is_datetime c \<Longrightarrow>
   py_lt e a b = Some False \<Longrightarrow> py_lt e b c = Some False \<Longrightarrow> py_lt e a c = Some False"
  by (cases a; cases b; cases c) auto

lemma insort_lt_set: "insort_lt lt key x ys = Some zs \<Longrightarrow> set zs = insert x (set ys)"
  by (induction ys arbitrary: zs) (auto split: option.splits bool.splits)

lemma insort_lt_length: "insort_lt lt key x ys = Some zs \<Longrightarrow> length zs = Suc (length ys)"
  by (induction ys arbitrary: zs) (auto split: option.splits bool.splits)

lemma sort_asc_set: "sort_asc lt key xs acc = Some zs \<Longrightarrow> set zs = set xs \<union> set acc"
  by (induction xs arbitrary: acc) (auto split: option.splits dest: insort_lt_set)

lemma sort_asc_length: "sort_asc lt key xs acc = Some zs \<Longrightarrow> length zs = length xs + length acc"
  by (induction xs arbitrary: acc) (auto split: option.splits dest: insort_lt_length)

lemma insort_lt_sorted:
  assumes "insort_lt (py_lt e) key x ys = Some zs"
    and "\<forall>y \<in> set (x # ys). \<not> is_datetime (key y)"
    and "sorted_wrt (\<lambda>a b. py_lt e (key b) (key a) = Some False) ys"
  shows "sorted_wrt (\<lambda>a b. py_lt e (key b) (key a) = Some False) zs"
  using assms
proof (induction ys arbitrary: zs)
  case Nil
  then show ?case by auto
next
  case (Cons y ys)
  show ?case
  proof (cases "py_lt e (key x) (key y)")
    case None
    with Cons.prems(1) show ?thesis by simp
  next
    case (Some lt)
    show ?thesis
    proof (cases lt)
      case True
      with Some have xy: "py_lt e (key x) (key y) = Some True" by simp
      then have zs: "zs = x # y # ys" using Cons.prems(1) by simp
      have yx: "py_lt e (key y) (key x) = Some False"
        using py_lt_asym [OF _ _ xy] Cons.prems(2) by simp
      have "py_lt e (key z) (key x) = Some False" if "z \<in> set ys" for z
      proof -
        have "py_lt e (key z) (key y) = Some False"
          using Cons.prems(3) that by simp
        then show ?thesis
          using py_lt_trans [of "key z" "key y" "key x" e] yx Cons.prems(2) that by simp
      qed
      with yx Cons.prems(3) show ?thesis
        unfolding zs by simp
    next
      case False
      with Some have xy: "py_lt e (key x) (key y) = Some False" by simp
      then obtain zs' where i: "insort_lt (py_lt e) key x ys = Some zs'" and zs: "zs = y # zs'"
        using Cons.prems(1) by auto
      have s: "sorted_wrt (\<lambda>a b. py_lt e (key b) (key a) = Some False) zs'"
        using Cons.IH [OF i] Cons.prems(2,3) by simp
      have "set zs' = insert x (set ys)"
        using insort_lt_set [OF i] .
      with xy Cons.prems(3) s show ?thesis
        unfolding zs by simp
    qed
  qed
qed

lemma sort_asc_sorted:
  assumes "sort_asc (py_lt e) key xs acc = Some zs"
    and "\<forall>y \<in> set xs \<union> set acc. \<not> is_datetime (key y)"
    and "sorted_wrt (\<lambda>a b. py_lt e (key b) (key a) = Some False) acc"
  shows "sorted_wrt (\<lambda>a b. py_lt e (key b) (key a) = Some False) zs"
  using assms
proof (induction xs arbitrary: acc)
  case Nil
  then show ?case by simp
next
  case (Cons x xs)
  from Cons.prems(1) obtain acc' where i: "insort_lt (py_lt e) key x acc = Some acc'"
    and r: "sort_asc (py_lt e) key xs acc' = Some zs"
    by (auto split: option.splits)
  have s: "sorted_wrt (\<lambda>a b. py_lt e (key b) (key a) = Some False) acc'"
    using insort_lt_sorted [OF i] Cons.prems(2,3) by simp
  have "set acc' = insert x (set acc)"
    using insort_lt_set [OF i] .
  with Cons.prems(2) have "\<forall>y \<in> set xs \<union> set acc'. \<not> is_datetime (key y)"
    by auto
  from Cons.IH [OF r this s] show ?case .
qed

lemma sort_reverse_sorted:
  assumes "sort_reverse (py_lt e) key xs = Inr rs"
    and "\<forall>y \<in> set xs. \<not> is_datetime (key y)"
  shows "sorted_wrt (\<lambda>a b. py_lt e (key a) (key b) = Some False) rs \<and> length rs = length xs"
proof -
  from assms(1) obtain ys where y: "sort_asc (py_lt e) key (rev xs) [] = Some ys" and r: "rs = rev ys"
    by (auto simp: sort_reverse_def split: option.splits)
  have "sorted_wrt (\<lambda>a b. py_lt e (key b) (key a) = Some False) ys"
    using sort_asc_sorted [OF y] assms(2) by simp
  then have "sorted_wrt (\<lambda>a b. py_lt e (key a) (key b) = Some False) (rev ys)"
    by (simp add: sorted_wrt_rev)
  with r sort_asc_length [OF y] show ?thesis by simp
qed

lemma not_lt_empty_key:
  "py_lt e (PStr []) v = Some False \<Longrightarrow> v = PStr []"
proof (cases v)
  case (PStr s)
  assume "py_lt e (PStr []) v = Some False"
  with PStr have "\<not> [] < s" by simp
  then have "s = []" by (cases s) simp_all
  with PStr show ?thesis by simp
qed simp_all


lemma list_attendance_run:
  assumes "get_documents e (ascii ''studentattendance'') [] limit = Inr docs"
  shows "list_attendance e limit =
           (case sort_reverse (py_lt e) created_at_key (map (convert_doc e) docs) of
              Inl ex \<Rightarrow> Inr [] | Inr rs \<Rightarrow> Inr rs)"
  by (simp add: list_attendance_def list_attendance_body_def assms convert_docs_map)

text \<open>
  C3, as the code has it. When the gateway hands out at most \<open>limit\<close> documents,
  \<open>list_attendance\<close> returns at most \<open>limit\<close> records; no record's \<open>created_at\<close> key is
  less than the key of a record after it (descending order, the key being \<open>""\<close> for a
  record with no \<open>created_at\<close>); and a record that comes after one with no
  \<open>created_at\<close> has no \<open>created_at\<close> either, or has the empty string there.
\<close>

theorem list_attendance_limited_sorted:
  assumes "get_documents e (ascii ''studentattendance'') [] limit = Inr docs"
    and "int (length docs) \<le> limit"
  shows "\<exists>rs. list_attendance e limit = Inr rs \<and> int (length rs) \<le> limit \<and>
     sorted_wrt (\<lambda>a b. py_lt e (created_at_key a) (created_at_key b) = Some False) rs \<and>
     (\<forall>i j. i < j \<and> j < length rs \<and> map_of (rs ! i) (ascii ''created_at'') = None \<longrightarrow>
        map_of (rs ! j) (ascii ''created_at'') = None \<or>
        map_of (rs ! j) (ascii ''created_at'') = Some (PStr []))"
proof (cases "sort_reverse (py_lt e) created_at_key (map (convert_doc e) docs)")
  case (Inl ex)
  then have "list_attendance e limit = Inr []"
    by (simp add: list_attendance_run [OF assms(1)])
  with assms(2) show ?thesis by simp
next
  case (Inr rs)
  then have l: "list_attendance e limit = Inr rs"
    by (simp add: list_attendance_run [OF assms(1)])
  have s: "sorted_wrt (\<lambda>a b. py_lt e (created_at_key a) (created_at_key b) = Some False) rs"
    and n: "length rs = length docs"
    using sort_reverse_sorted [OF Inr] by (simp_all add: created_at_key_convert)
  have "map_of (rs ! j) (ascii ''created_at'') = None \<or>
        map_of (rs ! j) (ascii ''created_at'') = Some (PStr [])"
    if "i < j" "j < length rs" "map_of (rs ! i) (ascii ''created_at'') = None" for i j
  proof -
    have "py_lt e (created_at_key (rs ! i)) (created_at_key (rs ! j)) = Some False"
      using s that(1,2) by (simp add: sorted_wrt_iff_nth_less)
    moreover have "created_at_key (rs ! i) = PStr []"
      using that(3) by (simp add: created_at_key_def dict_get_def)
    ultimately have "created_at_key (rs ! j) = PStr []"
      using not_lt_empty_key by metis
    then show ?thesis
      by (auto simp: created_at_key_def dict_get_def split: option.splits)
  qed
  with l s n assms(2) show ?thesis by auto
qed

theorem list_attendance_limited_sorted_witness:
  "list_attendance env_three 3 =
     Inr [[(ascii ''created_at'', PStr [84, 3]), (ascii ''id'', PStr (ascii ''c3''))],
          [(ascii ''created_at'', PStr [84, 1]), (ascii ''id'', PStr (ascii ''a1''))],
          [(ascii ''id'', PStr (ascii ''b2''))]] \<and>
   (\<exists>rs. list_attendance env_three 3 = Inr rs \<and> int (length rs) \<le> 3 \<and>
      sorted_wrt (\<lambda>a b. py_lt env_three (created_at_key a) (created_at_key b) = Some False) rs)"
proof -
  have g: "get_documents env_three (ascii ''studentattendance'') [] 3 = Inr
       [[(ascii ''_id'', PObjectId (ascii ''a1'')), (ascii ''created_at'', PDatetime 1)],
        [(ascii ''_id'', PObjectId (ascii ''b2''))],
        [(ascii ''_id'', PObjectId (ascii ''c3'')), (ascii ''created_at'', PDatetime 3)]]"
    by (simp add: env_three_def env_up_def)
  have i: "isoformat env_three = (\<lambda>t. [84, t])"
    by (simp add: env_three_def env_up_def)
  have "list_attendance env_three 3 =
     Inr [[(ascii ''created_at'', PStr [84, 3]), (ascii ''id'', PStr (ascii ''c3''))],
          [(ascii ''created_at'', PStr [84, 1]), (ascii ''id'', PStr (ascii ''a1''))],
          [(ascii ''id'', PStr (ascii ''b2''))]]"
    by (simp add: list_attendance_run [OF g] convert_doc_def dict_pop_def dict_get_def
        iso_field_def py_str_def i sort_reverse_def created_at_key_def)
  then show ?thesis
    using list_attendance_limited_sorted [OF g] by simp
qed

text \<open>
  The claim as written fails where a stored \<open>created_at\<close> is the empty string: its key
  ties with the key of a record that has no \<open>created_at\<close>, the sort is stable, and the
  record without the field stays in front of the record with it.
\<close>

theorem list_attendance_tie_counterexample:
  "get_documents env_tie (ascii ''studentattendance'') [] 2 =
     Inr [[(ascii ''_id'', PObjectId (ascii ''a1''))],
          [(ascii ''_id'', PObjectId (ascii ''b2'')), (ascii ''created_at'', PStr [])]] \<and>
   list_attendance env_tie 2 =
     Inr [[(ascii ''id'', PStr (ascii ''a1''))],
          [(ascii ''created_at'', PStr []), (ascii ''id'', PStr (ascii ''b2''))]] \<and>
   map_of [(ascii ''id'', PStr (ascii ''a1''))] (ascii ''created_at'') = (None :: nat pyval option) \<and>
   map_of [(ascii ''created_at'', PStr []), (ascii ''id'', PStr (ascii ''b2''))] (ascii ''created_at'')
     = Some (PStr [] :: nat pyval)"
proof -
  have g: "get_documents env_tie (ascii ''studentattendance'') [] 2 =
     Inr [[(ascii ''_id'', PObjectId (ascii ''a1''))],
          [(ascii ''_id'', PObjectId (ascii ''b2'')), (ascii ''created_at'', PStr [])]]"
    by (simp add: env_tie_def env_up_def)
  have "list_attendance env_tie 2 =
     Inr [[(ascii ''id'', PStr (ascii ''a1''))],
          [(ascii ''created_at'', PStr []), (ascii ''id'', PStr (ascii ''b2''))]]"
    by (simp add: list_attendance_run [OF g] convert_doc_def dict_pop_def dict_get_def
        iso_field_def py_str_def sort_reverse_def created_at_key_def)
  with g show ?thesis by simp
qed

text \<open>
  C4. When every storage operation raises, \<open>list_attendance\<close> returns the empty list and
  \<open>create_attendance\<close> returns a response whose \<open>id\<close> is \<open>None\<close>; neither raises.
\<close>

theorem storage_unavailable_absorbed:
  assumes "\<forall>c d. isl (create_document e c d)" and "\<forall>c f l. isl (get_documents e c f l)"
  shows "list_attendance e limit = Inr [] \<and>
         (\<exists>r. fst (create_attendance e p) = Inr r \<and> id' r = None)"
proof -
  obtain ex where "get_documents e (ascii ''studentattendance'') [] limit = Inl ex"
    using assms(2) by (metis isl_def)
  then have a: "list_attendance e limit = Inr []"
    by (simp add: list_attendance_def list_attendance_body_def)
  obtain t where t: "resolve_scanned_at e (scanned_val (scanned_at p)) = PDatetime t"
    using resolve_scanned_val [of e "scanned_at p"] by auto
  obtain ex' where c: "create_document e (ascii ''studentattendance'') (record_of p (PDatetime t)) = Inl ex'"
    using assms(1) by (metis isl_def)
  have "\<exists>r. fst (create_attendance e p) = Inr r \<and> id' r = None"
    using configured_cases [of e "ascii ''GOOGLE_SHEETS_WEBAPP_URL''"]
    by (auto simp: create_attendance_skipped [OF t] create_attendance_forwarded [OF t] c)
  with a show ?thesis by simp
qed

theorem storage_unavailable_absorbed_witness:
  "list_attendance env_down 50 = Inr [] \<and>
   (\<exists>r. fst (create_attendance env_down ana_in) = Inr r \<and> id' r = None)"
proof -
  have "\<forall>c d. isl (create_document env_down c d)" and "\<forall>c f l. isl (get_documents env_down c f l)"
    by (simp_all add: env_down_def env_up_def)
  then show ?thesis
    by (rule storage_unavailable_absorbed)
qed

section \<open>Properties of the diagnostic endpoint\<close>

lemma probe_database_fields:
  "probe_database e initial_health = (raised, r) \<Longrightarrow> length (collections r) \<le> 10"
  by (auto simp: probe_database_def initial_health_def Let_def
      split: sum.splits option.splits)

lemma probe_database_status:
  "probe_database e initial_health = (raised, r) \<Longrightarrow>
     (case import_db e of
        Inl ex \<Rightarrow> raised = Some ex
      | Inr None \<Rightarrow>
          raised = None \<and> database r = warning_sign @ ascii ''  Available but not initialized''
      | Inr (Some db) \<Rightarrow>
          (case db_name db of
             Inl ex \<Rightarrow> raised = Some ex
           | Inr attr \<Rightarrow>
               raised = None \<and>
               (case list_collection_names db of
                  Inl ex \<Rightarrow> database r = warning_sign @ ascii ''  Connected but Error: ''
                                            @ take 50 (str_exn ex)
                | Inr cs \<Rightarrow> database r = check_mark @ ascii '' Connected & Working'')))"
  by (auto simp: probe_database_def initial_health_def Let_def
      split: sum.splits option.splits)

lemma test_database_run:
  "probe_database e initial_health = (raised, r) \<Longrightarrow>
   \<exists>h. test_database e = Inr h \<and> collections h = collections r \<and>
       database h =
         (case raised of
            None \<Rightarrow> database r
          | Some ex \<Rightarrow>
              if is_import_error ex
              then cross_mark @ ascii '' Database module not found (run enable-database first)''
              else cross_mark @ ascii '' Error: '' @ take 50 (str_exn ex)) \<and>
       database_url h =
         PStr (if getenv_truthy e (ascii ''DATABASE_URL'')
               then check_mark @ ascii '' Set'' else cross_mark @ ascii '' Not Set'') \<and>
       database_name h =
         PStr (if getenv_truthy e (ascii ''DATABASE_NAME'')
               then check_mark @ ascii '' Set'' else cross_mark @ ascii '' Not Set'')"
  by (simp add: test_database_def split: option.splits)

text \<open>
  C9. \<open>test_database\<close> always returns a response. A failure of the import is reported in
  \<open>database\<close> (module not found for an \<open>ImportError\<close>, otherwise the first 50 characters of
  the message), as is a failure of the attribute check; a failure to enumerate the
  collections is reported as connected but in error, with the first 50 characters of the
  message. The response lists at most 10 collections, and \<open>database_url\<close> and
  \<open>database_name\<close> say whether \<open>DATABASE_URL\<close> and \<open>DATABASE_NAME\<close> are set.
\<close>

theorem test_database_never_raises:
  "\<exists>h. test_database e = Inr h \<and>
     length (collections h) \<le> 10 \<and>
     database h =
       (case import_db e of
          Inl ex \<Rightarrow>
            if is_import_error ex
            then cross_mark @ ascii '' Database module not found (run enable-database first)''
            else cross_mark @ ascii '' Error: '' @ take 50 (str_exn ex)
        | Inr None \<Rightarrow> warning_sign @ ascii ''  Available but not initialized''
        | Inr (Some db) \<Rightarrow>
            (case db_name db of
               Inl ex \<Rightarrow>
                 if is_import_error ex
                 then cross_mark @ ascii '' Database module not found (run enable-database first)''
                 else cross_mark @ ascii '' Error: '' @ take 50 (str_exn ex)
             | Inr attr \<Rightarrow>
                 (case list_collection_names db of
                    Inl ex \<Rightarrow> warning_sign @ ascii ''  Connected but Error: '' @ take 50 (str_exn ex)
                  | Inr cs \<Rightarrow> check_mark @ ascii '' Connected & Working''))) \<and>
     database_url h =
       PStr (if getenv_truthy e (ascii ''DATABASE_URL'')
             then check_mark @ ascii '' Set'' else cross_mark @ ascii '' Not Set'') \<and>
     database_name h =
       PStr (if getenv_truthy e (ascii ''DATABASE_NAME'')
             then check_mark @ ascii '' Set'' else cross_mark @ ascii '' Not Set'')"
proof -
  obtain raised r where p: "probe_database e initial_health = (raised, r)"
    by (cases "probe_database e initial_health")
  obtain h where h: "test_database e = Inr h" "collections h = collections r"
    "database h =
         (case raised of
            None \<Rightarrow> database r
          | Some ex \<Rightarrow>
              if is_import_error ex
              then cross_mark @ ascii '' Database module not found (run enable-database first)''
              else cross_mark @ ascii '' Error: '' @ take 50 (str_exn ex))"
    "database_url h =
         PStr (if getenv_truthy e (ascii ''DATABASE_URL'')
               then check_mark @ ascii '' Set'' else cross_mark @ ascii '' Not Set'')"
    "database_name h =
         PStr (if getenv_truthy e (ascii ''DATABASE_NAME'')
               then check_mark @ ascii '' Set'' else cross_mark @ ascii '' Not Set'')"
    using test_database_run [OF p] by blast
  have c: "length (collections h) \<le> 10"
    using probe_database_fields [OF p] h(2) by simp
  have d: "database h =
       (case import_db e of
          Inl ex \<Rightarrow>
            if is_import_error ex
            then cross_mark @ ascii '' Database module not found (run enable-database first)''
            else cross_mark @ ascii '' Error: '' @ take 50 (str_exn ex)
        | Inr None \<Rightarrow> warning_sign @ ascii ''  Available but not initialized''
        | Inr (Some db) \<Rightarrow>
            (case db_name db of
               Inl ex \<Rightarrow>
                 if is_import_error ex
                 then cross_mark @ ascii '' Database module not found (run enable-database first)''
                 else cross_mark @ ascii '' Error: '' @ take 50 (str_exn ex)
             | Inr attr \<Rightarrow>
                 (case list_collection_names db of
                    Inl ex \<Rightarrow> warning_sign @ ascii ''  Connected but Error: '' @ take 50 (str_exn ex)
                  | Inr cs \<Rightarrow> check_mark @ ascii '' Connected & Working'')))"
    using probe_database_status [OF p] h(3)
    by (auto split: sum.splits option.splits)
  from h(1,4,5) c d show ?thesis by blast
qed

theorem test_database_never_raises_witness:
  "\<exists>h. test_database env_down = Inr h \<and> length (collections h) \<le> 10 \<and>
       database h = cross_mark @ ascii '' Database module not found (run enable-database first)'' \<and>
       database_url h = PStr (cross_mark @ ascii '' Not Set'')"
proof -
  have i: "import_db env_down = Inl (Exn ImportError (ascii ''No module named database''))"
    by (simp add: env_down_def env_up_def)
  have g: "\<not> getenv_truthy env_down (ascii ''DATABASE_URL'')"
    by (simp add: getenv_truthy_def env_down_def env_up_def)
  show ?thesis
    using test_database_never_raises [of env_down] by (auto simp: i g)
qed

text \<open>
  C10. In the response of \<open>test_database\<close>, \<open>database_url\<close> and \<open>database_name\<close> are
  \<open>"Set"\<close> or \<open>"Not Set"\<close> (with their marks) according to \<open>DATABASE_URL\<close> and
  \<open>DATABASE_NAME\<close> alone: whatever the probe of the database finds and assigns to these
  fields, the response is the same in both, and \<open>database_url\<close> is never the probe's
  \<open>"Configured"\<close>.
\<close>

theorem database_fields_from_environment:
  "\<exists>h. test_database e = Inr h \<and>
     database_url h =
       PStr (if getenv_truthy e (ascii ''DATABASE_URL'')
             then check_mark @ ascii '' Set'' else cross_mark @ ascii '' Not Set'') \<and>
     database_name h =
       PStr (if getenv_truthy e (ascii ''DATABASE_NAME'')
             then check_mark @ ascii '' Set'' else cross_mark @ ascii '' Not Set'') \<and>
     database_url h \<noteq> PStr (check_mark @ ascii '' Configured'') \<and>
     (\<forall>probe. \<exists>h'. test_database (e\<lparr>import_db := probe\<rparr>) = Inr h' \<and>
        database_url h' = database_url h \<and> database_name h' = database_name h)"
proof -
  have run: "\<exists>h. test_database x = Inr h \<and>
     database_url h =
       PStr (if getenv_truthy x (ascii ''DATABASE_URL'')
             then check_mark @ ascii '' Set'' else cross_mark @ ascii '' Not Set'') \<and>
     database_name h =
       PStr (if getenv_truthy x (ascii ''DATABASE_NAME'')
             then check_mark @ ascii '' Set'' else cross_mark @ ascii '' Not Set'')"
    for x :: "'a env"
  proof -
    obtain raised r where p: "probe_database x initial_health = (raised, r)"
      by (cases "probe_database x initial_health")
    from test_database_run [OF p] show ?thesis by blast
  qed
  have same: "getenv_truthy (e\<lparr>import_db := probe\<rparr>) k = getenv_truthy e k" for probe k
    by (simp add: getenv_truthy_def)
  have ne: "check_mark @ ascii '' Set'' \<noteq> check_mark @ ascii '' Configured''"
    "cross_mark @ ascii '' Not Set'' \<noteq> check_mark @ ascii '' Configured''"
    by (simp_all add: check_mark_def cross_mark_def)
  obtain h where h: "test_database e = Inr h"
     "database_url h =
       PStr (if getenv_truthy e (ascii ''DATABASE_URL'')
             then check_mark @ ascii '' Set'' else cross_mark @ ascii '' Not Set'')"
     "database_name h =
       PStr (if getenv_truthy e (ascii ''DATABASE_NAME'')
             then check_mark @ ascii '' Set'' else cross_mark @ ascii '' Not Set'')"
    using run [of e] by blast
  have "\<exists>h'. test_database (e\<lparr>import_db := probe\<rparr>) = Inr h' \<and>
        database_url h' = database_url h \<and> database_name h' = database_name h" for probe
    using run [of "e\<lparr>import_db := probe\<rparr>"] h(2,3) by (simp add: same)
  moreover have "database_url h \<noteq> PStr (check_mark @ ascii '' Configured'')"
    using h(2) ne by simp
  ultimately show ?thesis
    using h by blast
qed

theorem database_fields_from_environment_witness:
  "\<exists>h. test_database env_db = Inr h \<and>
       database_url h = PStr (check_mark @ ascii '' Set'') \<and>
       database_name h = PStr (cross_mark @ ascii '' Not Set'') \<and>
       connection_status h = ascii ''Connected''"
proof -
  have g: "getenv_truthy env_db (ascii ''DATABASE_URL'')" "\<not> getenv_truthy env_db (ascii ''DATABASE_NAME'')"
    by (simp_all add: getenv_truthy_def env_db_def env_up_def ascii_def)
  have c: "\<exists>h. test_database env_db = Inr h \<and> connection_status h = ascii ''Connected''"
    by (simp add: test_database_def probe_database_def initial_health_def env_db_def env_up_def)
  show ?thesis
    using database_fields_from_environment [of env_db] c by (auto simp: g)
qed

end
